theory Spec2Isabelle
  imports Complex_Main "HOL-Library.Sublist"
begin

section \<open>Data model\<close>

text \<open>
  The sources are TypeScript.  JavaScript numbers are modelled as \<open>real\<close>: no rounding, no
  NaN, and no infinity except the \<open>-Infinity\<close> of \<open>Math.max()\<close> over nothing, which is
  modelled explicitly where the source can produce it.  A division by zero, which gives
  an infinity or NaN in the source, is not modelled.  JavaScript strings are modelled as
  \<open>string\<close>.
\<close>

text \<open>
  Modelled from the spec: the declarations of \<open>../types\<close> (\<open>Bubble\<close>, \<open>BubbleType\<close>,
  \<open>SpeechTailPart\<close>, \<open>ThoughtDotPart\<close>), which are not among the sources.  The archetypes
  are the keys of \<open>SAFE_TEXT_ZONES\<close> in \<open>src/utils/textAutoFit.ts\<close>; the fields are the ones
  the sources read (\<open>part.type\<close>, \<open>part.id\<close>, \<open>tail.baseCX\<close>, \<open>dotPart.offsetX\<close>,
  \<open>bubble.width\<close>, ...) and section 3 of the spec lists.
\<close>

datatype BubbleType =
    SpeechDown | SpeechUp | SpeechDownMinimal | SpeechUpMinimal
  | Whisper | Thought | Shout | Descriptive | TextOnly

text \<open>A part is a tagged union on its \<open>type\<close> field: \<open>'speech-tail'\<close> or \<open>'thought-dot'\<close>.\<close>

datatype BubblePart =
    SpeechTailPart (part_id: string) (baseCX: real) (baseCY: real) (baseWidth: real)
      (tipX: real) (tipY: real)
  | ThoughtDotPart (part_id: string) (offsetX: real) (offsetY: real) (dot_size: real)

record Bubble =
  bubble_id :: string
  btype :: BubbleType
  pos_x :: real
  pos_y :: real
  width :: real
  height :: real
  zIndex :: real
  fontFamily :: string
  fontSize :: real
  textColor :: string
  borderColor :: string
  btext :: string
  parts :: "BubblePart list"

section \<open>Path generation (\<open>generateBubblePaths\<close>)\<close>

record Circle =
  circle_id :: string
  cx :: real
  cy :: real
  radius :: real

record BubblePaths =
  bodyPath :: string
  partsCircles :: "Circle list"

text \<open>
  The template strings interpolate numbers with JavaScript's number-to-string conversion.
  That conversion is a parameter \<open>ns\<close> of the model; everything else of each template is
  spelled as in the source.
\<close>

definition is_speech_tail :: "BubblePart \<Rightarrow> bool" where
  "is_speech_tail p = (case p of SpeechTailPart _ _ _ _ _ _ \<Rightarrow> True | ThoughtDotPart _ _ _ _ \<Rightarrow> False)"

definition is_thought_dot :: "BubblePart \<Rightarrow> bool" where
  "is_thought_dot p = (case p of SpeechTailPart _ _ _ _ _ _ \<Rightarrow> False | ThoughtDotPart _ _ _ _ \<Rightarrow> True)"

text \<open>Lines 12 to 17: the corner radius.\<close>

definition corner_radius :: "Bubble \<Rightarrow> real" where
  "corner_radius bubble =
     (if btype bubble = SpeechDown \<or> btype bubble = SpeechUp \<or> btype bubble = Whisper
      then min (width bubble) (height bubble) / 2
      else if btype bubble = Descriptive then 5
      else 20)"

text \<open>Lines 24, 25, 33, 34 (and 40, 41): the clamped base and the two ends of the cut.\<close>

definition clampedBaseCX :: "Bubble \<Rightarrow> BubblePart \<Rightarrow> real" where
  "clampedBaseCX bubble tail = max 0 (min (width bubble) (baseCX tail))"

definition clampedBaseCY :: "Bubble \<Rightarrow> BubblePart \<Rightarrow> real" where
  "clampedBaseCY bubble tail = max 0 (min (height bubble) (baseCY tail))"

definition leftBaseX :: "Bubble \<Rightarrow> BubblePart \<Rightarrow> real" where
  "leftBaseX bubble tail =
     max (corner_radius bubble) (clampedBaseCX bubble tail - baseWidth tail / 2)"

definition rightBaseX :: "Bubble \<Rightarrow> BubblePart \<Rightarrow> real" where
  "rightBaseX bubble tail =
     min (width bubble - corner_radius bubble) (clampedBaseCX bubble tail + baseWidth tail / 2)"

text \<open>Lines 27 to 30: \<open>createTailPath\<close>, a closure over the tail and the clamped base.\<close>

definition createTailPath ::
  "(real \<Rightarrow> string) \<Rightarrow> Bubble \<Rightarrow> BubblePart \<Rightarrow> real \<times> real \<Rightarrow> real \<times> real \<Rightarrow> string" where
  "createTailPath ns bubble tail startPt endPt =
     (let midY = clampedBaseCY bubble tail + (tipY tail - clampedBaseCY bubble tail) * 0.5 in
      ''L '' @ ns (fst startPt) @ '','' @ ns (snd startPt)
      @ '' Q '' @ ns (fst startPt) @ '' '' @ ns (tipX tail - fst startPt) @ '' 0.25,'' @ ns midY
      @ '' '' @ ns (tipX tail) @ '','' @ ns (tipY tail)
      @ '' Q '' @ ns (fst endPt) @ '' '' @ ns (tipX tail - fst endPt) @ '' 0.25,'' @ ns midY
      @ '' '' @ ns (fst endPt) @ '','' @ ns (snd endPt))"

text \<open>Line 35 to 38: the outline with the bottom edge cut.\<close>

definition bottom_tail_path :: "(real \<Rightarrow> string) \<Rightarrow> Bubble \<Rightarrow> BubblePart \<Rightarrow> string" where
  "bottom_tail_path ns bubble tail =
     (let w = width bubble; h = height bubble; r = corner_radius bubble;
          l = leftBaseX bubble tail; rb = rightBaseX bubble tail in
      ''M '' @ ns r @ '',0 L '' @ ns (w - r) @ '',0 A '' @ ns r @ '','' @ ns r @ '' 0 0 1 ''
      @ ns w @ '','' @ ns r @ '' L '' @ ns w @ '','' @ ns (h - r) @ '' A '' @ ns r @ '','' @ ns r
      @ '' 0 0 1 '' @ ns (w - r) @ '','' @ ns h @ '' L '' @ ns rb @ '','' @ ns h @ '' ''
      @ createTailPath ns bubble tail (rb, h) (l, h)
      @ '' L '' @ ns r @ '','' @ ns h @ '' A '' @ ns r @ '','' @ ns r @ '' 0 0 1 0,'' @ ns (h - r)
      @ '' L 0,'' @ ns r @ '' A '' @ ns r @ '','' @ ns r @ '' 0 0 1 '' @ ns r @ '',0 Z'')"

text \<open>Lines 42 to 45: the outline with the top edge cut.\<close>

definition top_tail_path :: "(real \<Rightarrow> string) \<Rightarrow> Bubble \<Rightarrow> BubblePart \<Rightarrow> string" where
  "top_tail_path ns bubble tail =
     (let w = width bubble; h = height bubble; r = corner_radius bubble;
          l = leftBaseX bubble tail; rb = rightBaseX bubble tail in
      ''M '' @ ns r @ '',0 L '' @ ns l @ '',0 ''
      @ createTailPath ns bubble tail (l, 0) (rb, 0)
      @ '' L '' @ ns (w - r) @ '',0 A '' @ ns r @ '','' @ ns r @ '' 0 0 1 '' @ ns w @ '','' @ ns r
      @ '' L '' @ ns w @ '','' @ ns (h - r) @ '' A '' @ ns r @ '','' @ ns r @ '' 0 0 1 ''
      @ ns (w - r) @ '','' @ ns h @ '' L '' @ ns r @ '','' @ ns h @ '' A '' @ ns r @ '','' @ ns r
      @ '' 0 0 1 0,'' @ ns (h - r) @ '' L 0,'' @ ns r @ '' A '' @ ns r @ '','' @ ns r
      @ '' 0 0 1 '' @ ns r @ '',0 Z'')"

text \<open>Line 106: the plain rounded rectangle.\<close>

definition rounded_rect_path :: "(real \<Rightarrow> string) \<Rightarrow> Bubble \<Rightarrow> string" where
  "rounded_rect_path ns bubble =
     (let w = width bubble; h = height bubble; r = corner_radius bubble in
      ''M '' @ ns r @ '',0 L '' @ ns (w - r) @ '',0 A '' @ ns r @ '','' @ ns r @ '' 0 0 1 ''
      @ ns w @ '','' @ ns r @ '' L '' @ ns w @ '','' @ ns (h - r) @ '' A '' @ ns r @ '','' @ ns r
      @ '' 0 0 1 '' @ ns (w - r) @ '','' @ ns h @ '' L '' @ ns r @ '','' @ ns h @ '' A '' @ ns r
      @ '','' @ ns r @ '' 0 0 1 0,'' @ ns (h - r) @ '' L 0,'' @ ns r @ '' A '' @ ns r @ '','' @ ns r
      @ '' 0 0 1 '' @ ns r @ '',0 Z'')"

text \<open>Lines 56 to 70: the loop over the nine lobes of a thought bubble.\<close>

function thought_loop ::
  "(real \<Rightarrow> string) \<Rightarrow> real \<Rightarrow> real \<Rightarrow> real \<Rightarrow> real \<Rightarrow> nat \<Rightarrow> nat \<Rightarrow> string \<Rightarrow> string" where
  "thought_loop ns cx0 cy0 rx ry lobes i path =
     (if i < lobes then
        (let angle = (real i / real lobes) * pi * 2 - pi / 2;
             nextAngle = ((real i + 1) / real lobes) * pi * 2 - pi / 2;
             x1 = cx0 + rx * cos angle;
             y1 = cy0 + ry * sin angle;
             x2 = cx0 + rx * cos nextAngle;
             y2 = cy0 + ry * sin nextAngle;
             path1 = (if i = 0 then ''M '' @ ns x1 @ '','' @ ns y1 else path);
             midAngle = (angle + nextAngle) / 2;
             bulgeFactor = 1.4;
             cpx = cx0 + rx * bulgeFactor * cos midAngle;
             cpy = cy0 + ry * bulgeFactor * sin midAngle
         in thought_loop ns cx0 cy0 rx ry lobes (i + 1)
              (path1 @ '' Q '' @ ns cpx @ '','' @ ns cpy @ '' '' @ ns x2 @ '','' @ ns y2))
      else path)"
  by pat_completeness auto
termination
  by (relation "measure (\<lambda>(ns, cx0, cy0, rx, ry, lobes, i, path). lobes - i)") auto

text \<open>Lines 94 to 102: the loop over the 28 points of a shout bubble.\<close>

function shout_loop ::
  "(real \<Rightarrow> string) \<Rightarrow> real \<Rightarrow> real \<Rightarrow> nat \<Rightarrow> nat \<Rightarrow> string \<Rightarrow> string" where
  "shout_loop ns w h points i path =
     (if i < points * 2 then
        (let angle = (real i / (real points * 2)) * pi * 2 - pi / 2;
             isOuter = (i mod 2 = 0);
             currRx = (if isOuter then w / 2 else w / 3.5);
             currRy = (if isOuter then h / 2 else h / 3.5);
             px = w / 2 + currRx * cos angle;
             py = h / 2 + currRy * sin angle
         in shout_loop ns w h points (i + 1)
              (path @ (if i = 0 then ''M '' @ ns px @ '','' @ ns py
                       else '' L '' @ ns px @ '','' @ ns py)))
      else path)"
  by pat_completeness auto
termination
  by (relation "measure (\<lambda>(ns, w, h, points, i, path). points * 2 - i)") auto

text \<open>Lines 73 to 83: the circles of the thought dots, in the order of the parts.\<close>

fun thought_circles :: "BubblePart list \<Rightarrow> Circle list" where
  "thought_circles [] = []"
| "thought_circles (p # ps) =
     (if is_thought_dot p
      then \<lparr>circle_id = part_id p, cx = offsetX p, cy = offsetY p, radius = dot_size p / 2\<rparr>
           # thought_circles ps
      else thought_circles ps)"

definition generateBubblePaths :: "(real \<Rightarrow> string) \<Rightarrow> Bubble \<Rightarrow> BubblePaths" where
  "generateBubblePaths ns bubble =
     (let w = width bubble; h = height bubble; ty = btype bubble in
      if ty = SpeechDown \<or> ty = SpeechUp \<or> ty = Whisper then
        (case find is_speech_tail (parts bubble) of
           None \<Rightarrow> \<lparr>bodyPath = '''', partsCircles = []\<rparr>
         | Some tail \<Rightarrow>
             if clampedBaseCY bubble tail = h then
               \<lparr>bodyPath = bottom_tail_path ns bubble tail, partsCircles = []\<rparr>
             else if clampedBaseCY bubble tail = 0 then
               \<lparr>bodyPath = top_tail_path ns bubble tail, partsCircles = []\<rparr>
             else \<lparr>bodyPath = '''', partsCircles = []\<rparr>)
      else if ty = Thought then
        \<lparr>bodyPath = thought_loop ns (w / 2) (h / 2) (w * 0.3) (h * 0.3) 9 0 '''' @ '' Z'',
         partsCircles = thought_circles (parts bubble)\<rparr>
      else if ty = Shout then
        \<lparr>bodyPath = shout_loop ns w h 14 0 '''' @ '' Z'', partsCircles = []\<rparr>
      else \<lparr>bodyPath = rounded_rect_path ns bubble, partsCircles = []\<rparr>)"

declare thought_loop.simps [simp del] shout_loop.simps [simp del]

section \<open>Bounding box (\<open>getOverallBbox\<close>)\<close>

record Bbox =
  bbox_x :: real
  bbox_y :: real
  bbox_width :: real
  bbox_height :: real

text \<open>Lines 118 to 132: one step of the \<open>forEach\<close> over the running (minX, minY, maxX, maxY).\<close>

fun bbox_step :: "BubblePart \<Rightarrow> real \<times> real \<times> real \<times> real \<Rightarrow> real \<times> real \<times> real \<times> real" where
  "bbox_step (SpeechTailPart i bx by' bw tx ty) (minX, minY, maxX, maxY) =
     (min minX tx, min minY ty, max maxX tx, max maxY ty)"
| "bbox_step (ThoughtDotPart i ox oy sz) (minX, minY, maxX, maxY) =
     (min minX (ox - sz / 2), min minY (oy - sz / 2),
      max maxX (ox + sz / 2), max maxY (oy + sz / 2))"

definition bbox_extent :: "Bubble \<Rightarrow> real \<times> real \<times> real \<times> real" where
  "bbox_extent bubble = fold bbox_step (parts bubble) (0, 0, width bubble, height bubble)"

definition getOverallBbox :: "Bubble \<Rightarrow> Bbox" where
  "getOverallBbox bubble =
     (case bbox_extent bubble of (minX, minY, maxX, maxY) \<Rightarrow>
        let padding = 10 in
        \<lparr>bbox_x = minX - padding, bbox_y = minY - padding,
         bbox_width = maxX + padding - minX, bbox_height = maxY + padding - minY\<rparr>)"

section \<open>Text helpers: whitespace, tags, splitting\<close>

text \<open>
  The regular expression class \<open>\s\<close>, restricted to the 8-bit characters of \<open>string\<close>:
  tab, line feed, vertical tab, form feed, carriage return, space, no-break space.
\<close>

definition is_space :: "char \<Rightarrow> bool" where
  "is_space c =
     (c = CHR 0x09 \<or> c = CHR 0x0A \<or> c = CHR 0x0B \<or> c = CHR 0x0C \<or> c = CHR 0x0D
      \<or> c = CHR '' '' \<or> c = CHR 0xA0)"

text \<open>
  \<open>s.split(/\s+/)\<close>: the pieces between maximal runs of whitespace.  A leading or trailing
  run leaves an empty first or last piece, and the empty string splits into one empty piece.
\<close>

function split_go :: "string \<Rightarrow> string \<Rightarrow> string list" where
  "split_go cur [] = [cur]"
| "split_go cur (c # cs) =
     (if is_space c then cur # split_go [] (dropWhile is_space cs)
      else split_go (cur @ [c]) cs)"
  by pat_completeness auto
termination
  by (relation "measure (\<lambda>(cur, s). length s)")
     (auto simp: less_Suc_eq_le length_dropWhile_le)

definition split_ws :: "string \<Rightarrow> string list" where
  "split_ws s = split_go [] s"

text \<open>
  \<open>s.replace(/<[^>]*>/g, '')\<close>: every \<open><\<close> that has a \<open>>\<close> somewhere after it is deleted
  together with everything up to and including the first such \<open>>\<close>.
\<close>

function strip_tags :: "string \<Rightarrow> string" where
  "strip_tags [] = []"
| "strip_tags (c # cs) =
     (if c = CHR ''<'' \<and> List.member cs (CHR ''>'')
      then strip_tags (tl (dropWhile (\<lambda>d. d \<noteq> CHR ''>'') cs))
      else c # strip_tags cs)"
  by pat_completeness auto
termination
proof (relation "measure length")
  fix c :: char and cs :: string
  have "length (tl (dropWhile (\<lambda>d. d \<noteq> CHR ''>'') cs)) \<le> length cs"
    using length_dropWhile_le [of "\<lambda>d. d \<noteq> CHR ''>''" cs] by simp
  then show "(tl (dropWhile (\<lambda>d. d \<noteq> CHR ''>'') cs), c # cs) \<in> measure length"
    by simp
qed simp_all

text \<open>
  One match of \<open>/<br\s*\/?>/i\<close> at the head of a string: the rest after the match, or
  \<open>None\<close>.
\<close>

definition match_br :: "string \<Rightarrow> string option" where
  "match_br s =
     (case s of
        c1 # c2 # c3 # rest \<Rightarrow>
          if c1 = CHR ''<'' \<and> (c2 = CHR ''b'' \<or> c2 = CHR ''B'') \<and> (c3 = CHR ''r'' \<or> c3 = CHR ''R'')
          then (let r1 = dropWhile is_space rest;
                    r2 = (case r1 of [] \<Rightarrow> r1 | d # t \<Rightarrow> if d = CHR ''/'' then t else r1)
                in case r2 of [] \<Rightarrow> None | d # t \<Rightarrow> if d = CHR ''>'' then Some t else None)
          else None
      | _ \<Rightarrow> None)"

lemma match_br_shorter: "match_br s = Some rest \<Longrightarrow> length rest < length s"
proof -
  assume m: "match_br s = Some rest"
  then obtain c1 c2 c3 r0 where s: "s = c1 # c2 # c3 # r0"
    by (auto simp: match_br_def split: list.splits)
  have d: "length (dropWhile is_space r0) \<le> length r0"
    by (rule length_dropWhile_le)
  from m s have "length rest \<le> length (dropWhile is_space r0)"
    by (auto simp: match_br_def Let_def split: list.splits if_splits)
  with d s show ?thesis by simp
qed

text \<open>\<open>html.split(/<br\s*\/?>/gi)\<close>: the pieces between the line-break tags.\<close>

function split_br_go :: "string \<Rightarrow> string \<Rightarrow> string list" where
  "split_br_go cur s =
     (if s = [] then [cur]
      else case match_br s of
             Some rest \<Rightarrow> cur # split_br_go [] rest
           | None \<Rightarrow> split_br_go (cur @ [hd s]) (tl s))"
  by pat_completeness auto
termination
  by (relation "measure (\<lambda>(cur, s). length s)") (auto dest: match_br_shorter)

definition split_br :: "string \<Rightarrow> string list" where
  "split_br html = split_br_go [] html"

section \<open>Rich text: parsing and line wrapping (\<open>parseRichText\<close>, \<open>drawRichText\<close>)\<close>

record TextStyle =
  style_fontFamily :: string
  style_fontSize :: real
  style_textColor :: string
  isBold :: bool
  isItalic :: bool
  isUnderline :: bool
  isStrikethrough :: bool

record TextSegment =
  seg_text :: string
  seg_style :: TextStyle
  seg_width :: real
  seg_height :: real

record TextLine =
  segments :: "TextSegment list"
  line_width :: real
  line_height :: real

definition newline :: string where
  "newline = [CHR 0x0A]"

text \<open>
  Lines 169 to 190 of \<open>parseRichText\<close>: one round of the loop per piece; \<open>ls \<noteq> []\<close> is
  \<open>lineIdx < lines.length - 1\<close>.  \<open>lineHtml.trim()\<close> is truthy when a character that is not
  whitespace remains.
\<close>

fun parse_lines :: "TextStyle \<Rightarrow> string list \<Rightarrow> TextSegment list" where
  "parse_lines defaultStyle [] = []"
| "parse_lines defaultStyle (lineHtml # ls) =
     (if dropWhile is_space lineHtml \<noteq> [] \<and> strip_tags lineHtml \<noteq> []
      then [\<lparr>seg_text = strip_tags lineHtml, seg_style = defaultStyle, seg_width = 0, seg_height = 0\<rparr>]
      else [])
     @ (if ls \<noteq> []
        then [\<lparr>seg_text = newline, seg_style = defaultStyle, seg_width = 0, seg_height = 0\<rparr>]
        else [])
     @ parse_lines defaultStyle ls"

definition parseRichText :: "string \<Rightarrow> TextStyle \<Rightarrow> TextSegment list" where
  "parseRichText html defaultStyle = parse_lines defaultStyle (split_br html)"

text \<open>
  The drawing context: its current font, and the host's \<open>measureText\<close> as a function of the
  current font and the text.
\<close>

record Ctx =
  ctx_font :: string
  ctx_measure :: "string \<Rightarrow> string \<Rightarrow> real"

text \<open>Lines 222 to 228: the font string of a segment.\<close>

definition font_string :: "(real \<Rightarrow> string) \<Rightarrow> (string \<Rightarrow> string option) \<Rightarrow> TextStyle \<Rightarrow> string" where
  "font_string ns fontMap st =
     (let fontName0 = (case fontMap (style_fontFamily st) of
                         None \<Rightarrow> style_fontFamily st
                       | Some f \<Rightarrow> if f = [] then style_fontFamily st else f);
          fontName = (if \<not> List.member fontName0 (CHR '','') then fontName0 @ '', Arial''
                      else fontName0)
      in (if isItalic st then ''italic '' else [])
         @ (if isBold st then ''bold '' else [])
         @ ns (style_fontSize st) @ ''px '' @ fontName)"

text \<open>Lines 220 to 233: measuring the segments; the context keeps the last font set.\<close>

fun measure_segments ::
  "(real \<Rightarrow> string) \<Rightarrow> (string \<Rightarrow> string option) \<Rightarrow> TextSegment list \<Rightarrow> Ctx
   \<Rightarrow> TextSegment list \<times> Ctx" where
  "measure_segments ns fontMap [] ctx = ([], ctx)"
| "measure_segments ns fontMap (seg # segs) ctx =
     (if seg_text seg = [] then
        (case measure_segments ns fontMap segs ctx of (segs', ctx') \<Rightarrow> (seg # segs', ctx'))
      else
        (let ctx1 = ctx\<lparr>ctx_font := font_string ns fontMap (seg_style seg)\<rparr>;
             seg1 = seg\<lparr>seg_width := ctx_measure ctx1 (ctx_font ctx1) (seg_text seg),
                        seg_height := style_fontSize (seg_style seg)\<rparr>
         in case measure_segments ns fontMap segs ctx1 of (segs', ctx') \<Rightarrow> (seg1 # segs', ctx')))"

text \<open>The state of the wrapping loop, lines 236 to 238.\<close>

record wrap_state =
  lines :: "TextLine list"
  currentLine :: TextLine
  currentY :: real

definition empty_line :: TextLine where
  "empty_line = \<lparr>segments = [], line_width = 0, line_height = 0\<rparr>"

definition wrap_init :: wrap_state where
  "wrap_init = \<lparr>lines = [], currentLine = empty_line, currentY = 0\<rparr>"

text \<open>\<open>a || b\<close> on numbers: \<open>b\<close> when \<open>a\<close> is zero.\<close>

definition js_or :: "real \<Rightarrow> real \<Rightarrow> real" where
  "js_or a b = (if a \<noteq> 0 then a else b)"

text \<open>
  Lines 254 to 256 (and 242 to 244): the current line is pushed, then replaced by an empty
  line, and only then is \<open>currentLine.height\<close> read for the vertical cursor.
\<close>

definition close_line :: "real \<Rightarrow> wrap_state \<Rightarrow> wrap_state" where
  "close_line defaultFontSize st =
     (let lines1 = lines st @ [currentLine st];
          currentLine1 = empty_line
      in \<lparr>lines = lines1, currentLine = currentLine1,
          currentY = currentY st + js_or (line_height currentLine1) defaultFontSize\<rparr>)"

text \<open>
  Lines 249 to 267: the loop over the words of one segment.  \<open>m\<close> is \<open>ctx.measureText\<close> under
  the font the context holds during the loop, \<open>getMaxWidthAtY\<close> the optional argument.
\<close>

fun wrap_words ::
  "(string \<Rightarrow> real) \<Rightarrow> (real \<Rightarrow> real) option \<Rightarrow> real \<Rightarrow> real \<Rightarrow> TextSegment \<Rightarrow> string list
   \<Rightarrow> wrap_state \<Rightarrow> wrap_state" where
  "wrap_words m getMaxWidthAtY w defaultFontSize seg [] st = st"
| "wrap_words m getMaxWidthAtY w defaultFontSize seg (word # ws) st =
     (let wordWidth = m (word @ '' '');
          maxLineWidth = (case getMaxWidthAtY of Some g \<Rightarrow> g (currentY st) | None \<Rightarrow> w);
          st1 = (if line_width (currentLine st) + wordWidth > maxLineWidth
                    \<and> segments (currentLine st) \<noteq> []
                 then close_line defaultFontSize st else st);
          cl = currentLine st1;
          cl1 = \<lparr>segments = segments cl
                    @ [\<lparr>seg_text = word, seg_style = seg_style seg, seg_width = wordWidth,
                        seg_height = seg_height seg\<rparr>],
                 line_width = line_width cl + wordWidth,
                 line_height = max (line_height cl) (seg_height seg)\<rparr>
      in wrap_words m getMaxWidthAtY w defaultFontSize seg ws (st1\<lparr>currentLine := cl1\<rparr>))"

text \<open>
  Lines 240 to 268: the loop over the segments.  The \<open>return\<close> of line 245 leaves
  \<open>drawRichText\<close> itself: \<open>Returned\<close> carries the state at that moment, \<open>Completed\<close> the state
  when the loop ran to its end.
\<close>

datatype wrap_outcome = Returned wrap_state | Completed wrap_state

fun wrap_segments ::
  "(string \<Rightarrow> real) \<Rightarrow> (real \<Rightarrow> real) option \<Rightarrow> real \<Rightarrow> real \<Rightarrow> TextSegment list
   \<Rightarrow> wrap_state \<Rightarrow> wrap_outcome" where
  "wrap_segments m getMaxWidthAtY w defaultFontSize [] st = Completed st"
| "wrap_segments m getMaxWidthAtY w defaultFontSize (seg # segs) st =
     (if seg_text seg = newline then Returned (close_line defaultFontSize st)
      else wrap_segments m getMaxWidthAtY w defaultFontSize segs
             (wrap_words m getMaxWidthAtY w defaultFontSize seg (split_ws (seg_text seg)) st))"

text \<open>
  Lines 236 to 272: the lines the drawing part of \<open>drawRichText\<close> receives; \<open>None\<close> when the
  function has returned before reaching it.
\<close>

definition wrap_lines ::
  "(string \<Rightarrow> real) \<Rightarrow> (real \<Rightarrow> real) option \<Rightarrow> real \<Rightarrow> real \<Rightarrow> TextSegment list
   \<Rightarrow> TextLine list option" where
  "wrap_lines m getMaxWidthAtY w defaultFontSize segs =
     (case wrap_segments m getMaxWidthAtY w defaultFontSize segs wrap_init of
        Returned st \<Rightarrow> None
      | Completed st \<Rightarrow>
          Some (if segments (currentLine st) \<noteq> [] then lines st @ [currentLine st]
                else lines st))"

text \<open>Lines 215 to 272 of \<open>drawRichText\<close>: parse, measure, wrap.\<close>

definition drawRichText_lines ::
  "(real \<Rightarrow> string) \<Rightarrow> Ctx \<Rightarrow> string \<Rightarrow> real \<Rightarrow> TextStyle \<Rightarrow> (string \<Rightarrow> string option)
   \<Rightarrow> (real \<Rightarrow> real) option \<Rightarrow> TextLine list option" where
  "drawRichText_lines ns ctx html w defaultStyle fontMap getMaxWidthAtY =
     (case measure_segments ns fontMap (parseRichText html defaultStyle) ctx of
        (segs, ctx1) \<Rightarrow>
          wrap_lines (ctx_measure ctx1 (ctx_font ctx1)) getMaxWidthAtY w
            (style_fontSize defaultStyle) segs)"

text \<open>The words of the text segments, in order, and the words of the lines, in order.\<close>

definition input_words :: "TextSegment list \<Rightarrow> string list" where
  "input_words segs =
     concat (map (\<lambda>seg. split_ws (seg_text seg)) (filter (\<lambda>seg. seg_text seg \<noteq> newline) segs))"

definition output_words :: "TextLine list \<Rightarrow> string list" where
  "output_words ls = concat (map (\<lambda>l. map seg_text (segments l)) ls)"

section \<open>Font fitting (\<open>src/utils/textAutoFit.ts\<close>)\<close>

record SafeZone =
  widthFactor :: real
  heightFactor :: real

fun SAFE_TEXT_ZONES :: "BubbleType \<Rightarrow> SafeZone" where
  "SAFE_TEXT_ZONES Shout = \<lparr>widthFactor = 0.5, heightFactor = 0.55\<rparr>"
| "SAFE_TEXT_ZONES Thought = \<lparr>widthFactor = 0.5, heightFactor = 0.65\<rparr>"
| "SAFE_TEXT_ZONES SpeechDown = \<lparr>widthFactor = 0.83, heightFactor = 0.83\<rparr>"
| "SAFE_TEXT_ZONES SpeechUp = \<lparr>widthFactor = 0.83, heightFactor = 0.83\<rparr>"
| "SAFE_TEXT_ZONES SpeechDownMinimal = \<lparr>widthFactor = 0.83, heightFactor = 0.83\<rparr>"
| "SAFE_TEXT_ZONES SpeechUpMinimal = \<lparr>widthFactor = 0.83, heightFactor = 0.83\<rparr>"
| "SAFE_TEXT_ZONES Whisper = \<lparr>widthFactor = 0.8, heightFactor = 0.8\<rparr>"
| "SAFE_TEXT_ZONES Descriptive = \<lparr>widthFactor = 0.9, heightFactor = 0.85\<rparr>"
| "SAFE_TEXT_ZONES TextOnly = \<lparr>widthFactor = 0.95, heightFactor = 0.9\<rparr>"

record TextBounds =
  tb_width :: real
  tb_height :: real
  tb_x :: real
  tb_y :: real

definition getTextBounds :: "Bubble \<Rightarrow> TextBounds" where
  "getTextBounds bubble =
     (if btype bubble = Shout \<or> btype bubble = Thought then
        (let safeZone = SAFE_TEXT_ZONES (btype bubble);
             textWidth = width bubble * widthFactor safeZone;
             textHeight = height bubble * heightFactor safeZone
         in \<lparr>tb_width = textWidth, tb_height = textHeight,
             tb_x = (width bubble - textWidth) / 2, tb_y = (height bubble - textHeight) / 2\<rparr>)
      else
        (let padding = 10 in
         \<lparr>tb_width = width bubble - padding * 2, tb_height = height bubble - padding * 2,
          tb_x = padding, tb_y = padding\<rparr>))"

text \<open>
  A number that may be \<open>-Infinity\<close>: \<open>Math.max(...[])\<close> in line 82 when no line was
  collected.
\<close>

datatype extnum = NegInfinity | Num real

fun le_ext :: "extnum \<Rightarrow> real \<Rightarrow> bool" where
  "le_ext NegInfinity b = True"
| "le_ext (Num a) b = (a \<le> b)"

fun math_max :: "real list \<Rightarrow> extnum" where
  "math_max [] = NegInfinity"
| "math_max (a # as) = Num (fold max as a)"

record TextDims =
  dim_width :: extnum
  dim_height :: real
  dim_lines :: nat

text \<open>
  The canvas \<open>measureText\<close> creates: \<open>None\<close> when \<open>getContext('2d')\<close> gives null, otherwise
  the host's text measurement.  The font is set to the string
  \<open>fontSize px fontFamily\<close>, which the two values determine, so the measured width is a
  function of the font size, the font family and the text.
\<close>

type_synonym canvas = "(real \<Rightarrow> string \<Rightarrow> string \<Rightarrow> real) option"

text \<open>Lines 66 to 76: the loop over the words; the state is (\<open>lines\<close>, \<open>currentLine\<close>).\<close>

fun measure_words ::
  "(string \<Rightarrow> real) \<Rightarrow> real \<Rightarrow> string list \<Rightarrow> string list \<times> string \<Rightarrow> string list \<times> string" where
  "measure_words m maxWidth [] st = st"
| "measure_words m maxWidth (word # ws) (ls, cur) =
     (let testLine = (if cur \<noteq> [] then cur @ '' '' @ word else word) in
      if m testLine > maxWidth
      then measure_words m maxWidth ws (if cur \<noteq> [] then ls @ [cur] else ls, word)
      else measure_words m maxWidth ws (ls, testLine))"

text \<open>Lines 62 to 78: the lines of the wrapped text.\<close>

definition measure_lines :: "(string \<Rightarrow> real) \<Rightarrow> real \<Rightarrow> string \<Rightarrow> string list" where
  "measure_lines m maxWidth txt =
     (case measure_words m maxWidth (split_ws (strip_tags txt)) ([], []) of
        (ls, cur) \<Rightarrow> if cur \<noteq> [] then ls @ [cur] else ls)"

definition measureText :: "canvas \<Rightarrow> string \<Rightarrow> string \<Rightarrow> real \<Rightarrow> real \<Rightarrow> TextDims" where
  "measureText canvas txt family fs maxWidth =
     (case canvas of
        None \<Rightarrow> \<lparr>dim_width = Num maxWidth, dim_height = fs * 1.4, dim_lines = 1\<rparr>
      | Some oracle \<Rightarrow>
          (let m = oracle fs family;
               ls = measure_lines m maxWidth txt;
               lineHeight = fs * 1.4;
               totalHeight = real (length ls) * lineHeight;
               maxLineWidth = math_max (map m ls)
           in \<lparr>dim_width = maxLineWidth, dim_height = totalHeight, dim_lines = length ls\<rparr>))"

record TextFitResult =
  fit_fontSize :: real
  textWidth :: extnum
  textHeight :: real
  fits :: bool
  scaleFactor :: real

text \<open>
  Lines 100 to 124: the search loop and the code after it.  \<open>maxIterations\<close> is 20.  The
  division of line 109 and 123 is the division of \<open>real\<close>.
\<close>

function fit_loop ::
  "canvas \<Rightarrow> string \<Rightarrow> string \<Rightarrow> real \<Rightarrow> real \<Rightarrow> TextBounds \<Rightarrow> real \<Rightarrow> nat \<Rightarrow> TextFitResult" where
  "fit_loop canvas txt family minFontSize targetFontSize textBounds fs iterations =
     (if fs \<ge> minFontSize \<and> iterations < 20 then
        (let dimensions = measureText canvas txt family fs (tb_width textBounds) in
         if dim_height dimensions \<le> tb_height textBounds
            \<and> le_ext (dim_width dimensions) (tb_width textBounds)
         then \<lparr>fit_fontSize = fs, textWidth = dim_width dimensions,
               textHeight = dim_height dimensions, fits = True,
               scaleFactor = fs / targetFontSize\<rparr>
         else fit_loop canvas txt family minFontSize targetFontSize textBounds
                (max minFontSize (fs - 1)) (iterations + 1))
      else
        (let dimensions = measureText canvas txt family minFontSize (tb_width textBounds) in
         \<lparr>fit_fontSize = minFontSize, textWidth = dim_width dimensions,
          textHeight = dim_height dimensions,
          fits = (dim_height dimensions \<le> tb_height textBounds),
          scaleFactor = minFontSize / targetFontSize\<rparr>))"
  by pat_completeness auto
termination
  by (relation "measure (\<lambda>(canvas, txt, family, minFontSize, targetFontSize, textBounds, fs,
        iterations). 20 - iterations)") auto

definition calculateOptimalFontSize ::
  "canvas \<Rightarrow> string \<Rightarrow> Bubble \<Rightarrow> string \<Rightarrow> real \<Rightarrow> real \<Rightarrow> TextFitResult" where
  "calculateOptimalFontSize canvas txt bubble family minFontSize maxFontSize =
     fit_loop canvas txt family minFontSize (fontSize bubble) (getTextBounds bubble)
       (min (fontSize bubble) maxFontSize) 0"

definition detectTextOverflow :: "canvas \<Rightarrow> string \<Rightarrow> Bubble \<Rightarrow> string \<Rightarrow> bool" where
  "detectTextOverflow canvas txt bubble family =
     (let textBounds = getTextBounds bubble;
          dimensions = measureText canvas txt family (fontSize bubble) (tb_width textBounds)
      in dim_height dimensions > tb_height textBounds
         \<or> \<not> le_ext (dim_width dimensions) (tb_width textBounds))"

text \<open>Lines 133 to 145; the defaults of line 91 and 92 are 8 and 40.\<close>

definition autoFitBubbleText :: "canvas \<Rightarrow> Bubble \<Rightarrow> string \<Rightarrow> Bubble" where
  "autoFitBubbleText canvas bubble family =
     (if btype bubble = TextOnly \<or> btext bubble = [] \<or> btext bubble = ''Votre texte ici''
      then bubble
      else
        (let result = calculateOptimalFontSize canvas (btext bubble) bubble family 8 40 in
         if fit_fontSize result = fontSize bubble then bubble
         else bubble\<lparr>fontSize := fit_fontSize result\<rparr>))"

text \<open>
  The same function on a store of objects, to tell the object it returns from the one it
  was given.  A reference is an index into the store; \<open>return bubble\<close> hands back the
  reference it received, and the spread \<open>{ ...bubble, fontSize: ... }\<close> allocates a new
  object at the end of the store.
\<close>

type_synonym store = "Bubble list"

definition autoFitBubbleText_ref :: "canvas \<Rightarrow> store \<Rightarrow> nat \<Rightarrow> string \<Rightarrow> nat \<times> store" where
  "autoFitBubbleText_ref canvas st ref family =
     (let bubble = st ! ref in
      if btype bubble = TextOnly \<or> btext bubble = [] \<or> btext bubble = ''Votre texte ici''
      then (ref, st)
      else
        (let result = calculateOptimalFontSize canvas (btext bubble) bubble family 8 40 in
         if fit_fontSize result = fontSize bubble then (ref, st)
         else (length st, st @ [bubble\<lparr>fontSize := fit_fontSize result\<rparr>])))"

declare fit_loop.simps [simp del]

section \<open>Notions the properties are stated with\<close>

text \<open>The test of line 103, at one font size.\<close>

definition fits_at :: "canvas \<Rightarrow> string \<Rightarrow> string \<Rightarrow> TextBounds \<Rightarrow> real \<Rightarrow> bool" where
  "fits_at canvas txt family textBounds fs =
     (let dimensions = measureText canvas txt family fs (tb_width textBounds) in
      dim_height dimensions \<le> tb_height textBounds
      \<and> le_ext (dim_width dimensions) (tb_width textBounds))"

text \<open>
  A measurement that never finds a piece of a text wider than the text around it
  (\<open>sublist\<close> is the contiguous one), and a canvas whose measurement is such at every font.
\<close>

definition monotone_measure :: "(string \<Rightarrow> real) \<Rightarrow> bool" where
  "monotone_measure m = (\<forall>s t. sublist s t \<longrightarrow> m s \<le> m t)"

definition monotone_canvas :: "canvas \<Rightarrow> bool" where
  "monotone_canvas canvas =
     (case canvas of
        None \<Rightarrow> True
      | Some oracle \<Rightarrow> \<forall>fs family. monotone_measure (oracle fs family))"

text \<open>The lines of \<open>measureText\<close> once the last \<open>currentLine\<close> is pushed (line 78).\<close>

definition final_lines :: "string list \<times> string \<Rightarrow> string list" where
  "final_lines st = (case st of (ls, cur) \<Rightarrow> if cur \<noteq> [] then ls @ [cur] else ls)"

text \<open>
  Two runs of the loop of \<open>measureText\<close> over the same words, the second with at least the
  width of the first: the second has pushed fewer lines, or as many and its current line
  is an end of the first run's current line.
\<close>

definition ahead :: "string list \<times> string \<Rightarrow> string list \<times> string \<Rightarrow> bool" where
  "ahead st2 st1 =
     (length (fst st2) < length (fst st1)
      \<or> (length (fst st2) = length (fst st1) \<and> suffix (snd st2) (snd st1)))"

text \<open>The lines of the wrapping loop of \<open>drawRichText\<close>, the current one included.\<close>

definition all_lines :: "wrap_state \<Rightarrow> TextLine list" where
  "all_lines st = lines st @ [currentLine st]"


section \<open>Inputs the properties are evaluated at\<close>

definition bubble_of ::
  "BubbleType \<Rightarrow> real \<Rightarrow> real \<Rightarrow> real \<Rightarrow> string \<Rightarrow> BubblePart list \<Rightarrow> Bubble" where
  "bubble_of ty w h fs t ps =
     \<lparr>bubble_id = ''b1'', btype = ty, pos_x = 0, pos_y = 0, width = w, height = h, zIndex = 1,
      fontFamily = ''Arial'', fontSize = fs, textColor = ''#000000'', borderColor = ''#000000'',
      btext = t, parts = ps\<rparr>"

text \<open>The example of the spec: 200 by 100, tail base (100,100) of width 40, tip (80,160).\<close>

definition example_tail :: BubblePart where
  "example_tail = SpeechTailPart ''tail'' 100 100 40 80 160"

definition example_bubble :: Bubble where
  "example_bubble = bubble_of SpeechDown 200 100 16 ''Hi'' [example_tail]"

text \<open>A speech bubble with no part, and one whose tail base sits on the left edge.\<close>

definition speech_no_tail :: Bubble where
  "speech_no_tail = bubble_of SpeechDown 200 100 16 ''Hi'' []"

definition speech_side_tail :: Bubble where
  "speech_side_tail =
     bubble_of SpeechDown 200 100 16 ''Hi'' [SpeechTailPart ''tail'' 0 50 40 (-60) 50]"

text \<open>A speech bubble whose tail points to the right of the body.\<close>

definition tail_right_bubble :: Bubble where
  "tail_right_bubble =
     bubble_of SpeechDown 200 100 16 ''Hi'' [SpeechTailPart ''tail'' 100 100 40 260 50]"

text \<open>A shout bubble that carries a thought dot.\<close>

definition shout_with_dot :: Bubble where
  "shout_with_dot = bubble_of Shout 100 100 16 ''Hi'' [ThoughtDotPart ''dot'' 5 5 10]"

definition big_speech_bubble :: Bubble where
  "big_speech_bubble = bubble_of SpeechDown 1000 1000 16 ''Hi'' []"

text \<open>
  A measurement in which every character is half the font size wide.  A font size that
  is not positive is not a font the canvas accepts; the canvas then keeps its initial
  font of 10 pixels.
\<close>

definition mono_oracle :: "real \<Rightarrow> string \<Rightarrow> string \<Rightarrow> real" where
  "mono_oracle fs family t = (if 0 < fs then fs else 10) / 2 * real (length t)"

definition long_word :: string where
  "long_word = ''aaaaaaaaaaaaaaaaaaaaaaaa''"

definition long_word_bubble :: Bubble where
  "long_word_bubble = bubble_of Descriptive 100 100 12 long_word []"

definition hello_small :: Bubble where
  "hello_small = bubble_of Descriptive 100 60 30 ''hello world'' []"

definition hello_large :: Bubble where
  "hello_large = bubble_of Descriptive 200 100 30 ''hello world'' []"

definition style10 :: TextStyle where
  "style10 =
     \<lparr>style_fontFamily = ''Arial'', style_fontSize = 10, style_textColor = ''#000000'',
      isBold = False, isItalic = False, isUnderline = False, isStrikethrough = False\<rparr>"




section \<open>Properties: path generation and bounding box\<close>

text \<open>
  The shape of the body path: it is empty, or it starts with \<open>M\<close> and ends with \<open>Z\<close>;
  and it is empty exactly for a speech or whisper bubble that has no tail part, or whose
  first tail part has its clamped base on neither the bottom nor the top edge.
\<close>

lemma thought_loop_prefix:
  "0 < i \<Longrightarrow> prefix path (thought_loop ns cx0 cy0 rx ry lobes i path)"
proof (induction "lobes - i" arbitrary: i path)
  case 0
  then show ?case by (subst thought_loop.simps) simp
next
  case (Suc k)
  then have "\<And>p. prefix p (thought_loop ns cx0 cy0 rx ry lobes (Suc i) p)" by simp
  then show ?case
    using Suc.prems by (subst thought_loop.simps) (auto simp: Let_def intro: append_prefixD)
qed

lemma hd_of_prefix: "prefix (c # p) s \<Longrightarrow> hd s = c"
  by (auto simp: prefix_def)

lemma thought_path_hd: "hd (thought_loop ns cx0 cy0 rx ry 9 0 [] @ z) = CHR ''M''"
proof -
  have "\<exists>p. prefix (CHR ''M'' # p) (thought_loop ns cx0 cy0 rx ry 9 0 [])"
    by (subst thought_loop.simps) (auto simp: Let_def intro: thought_loop_prefix append_prefixD)
  then show ?thesis by (auto simp: prefix_def)
qed

lemma shout_loop_prefix: "prefix path (shout_loop ns w h points i path)"
proof (induction "points * 2 - i" arbitrary: i path)
  case 0
  then show ?case by (subst shout_loop.simps) simp
next
  case (Suc k)
  then have "\<And>p. prefix p (shout_loop ns w h points (Suc i) p)" by simp
  then show ?case
    by (subst shout_loop.simps) (auto simp: Let_def intro: append_prefixD)
qed

lemma shout_path_hd: "hd (shout_loop ns w h 14 0 [] @ z) = CHR ''M''"
proof -
  have "\<exists>p. prefix (CHR ''M'' # p) (shout_loop ns w h 14 0 [])"
    by (subst shout_loop.simps) (auto simp: Let_def intro: shout_loop_prefix)
  then show ?thesis by (auto simp: prefix_def)
qed

lemma body_path_shape:
  "bodyPath (generateBubblePaths ns bubble) = []
   \<or> (hd (bodyPath (generateBubblePaths ns bubble)) = CHR ''M''
      \<and> last (bodyPath (generateBubblePaths ns bubble)) = CHR ''Z'')"
  by (simp add: generateBubblePaths_def Let_def bottom_tail_path_def top_tail_path_def
      rounded_rect_path_def thought_path_hd shout_path_hd split: option.split)

lemma body_path_empty_iff:
  "bodyPath (generateBubblePaths ns bubble) = [] \<longleftrightarrow>
     (btype bubble = SpeechDown \<or> btype bubble = SpeechUp \<or> btype bubble = Whisper)
     \<and> (case find is_speech_tail (parts bubble) of
          None \<Rightarrow> True
        | Some tail \<Rightarrow> clampedBaseCY bubble tail \<noteq> height bubble \<and> clampedBaseCY bubble tail \<noteq> 0)"
  by (simp add: generateBubblePaths_def Let_def bottom_tail_path_def top_tail_path_def
      rounded_rect_path_def split: option.split)

lemma bbox_right_edge:
  "bbox_x (getOverallBbox bubble) + bbox_width (getOverallBbox bubble)
     = fst (snd (snd (bbox_extent bubble)))
   \<and> bbox_y (getOverallBbox bubble) + bbox_height (getOverallBbox bubble)
     = snd (snd (snd (bbox_extent bubble)))"
  by (simp add: getOverallBbox_def Let_def split: prod.split)

text \<open>
  C10.  Circles are surfaced only for a thought bubble: for every bubble of another
  archetype \<open>partsCircles\<close> is empty, whatever parts the bubble has.
\<close>

theorem partsCircles_only_for_Thought:
  "btype bubble \<noteq> Thought \<Longrightarrow> partsCircles (generateBubblePaths ns bubble) = []"
  by (simp add: generateBubblePaths_def Let_def split: option.split)

theorem partsCircles_only_for_Thought_witness:
  "btype shout_with_dot \<noteq> Thought
   \<and> length (filter is_thought_dot (parts shout_with_dot)) = 1
   \<and> partsCircles (generateBubblePaths (\<lambda>r. ''0'') shout_with_dot) = []"
  using partsCircles_only_for_Thought [of shout_with_dot "\<lambda>r. ''0''"]
  by (simp add: shout_with_dot_def bubble_of_def is_thought_dot_def)

text \<open>
  C1.  The claim: every bubble gets a non-empty body path that starts with \<open>M\<close> and ends
  with \<open>Z\<close>, also a speech bubble with no tail part or with a tail whose clamped base is on
  neither the top nor the bottom edge.  The code at these two inputs returns the empty
  string.
\<close>

theorem speech_without_bottom_or_top_tail_has_empty_path:
  "bodyPath (generateBubblePaths ns speech_no_tail) = []
   \<and> bodyPath (generateBubblePaths ns speech_side_tail) = []"
  by (simp add: generateBubblePaths_def speech_no_tail_def speech_side_tail_def bubble_of_def
      is_speech_tail_def clampedBaseCY_def Let_def)

text \<open>
  C2.  The claim: the box is the union of the body, the tips and the dots, with 10 units
  of padding on all four sides.  The code at a bubble whose tail tip is at x = 260: the
  box starts 10 units left of and above the union, and ends exactly at the tip on the
  right and at the body's lower edge below.
\<close>

theorem bbox_has_no_padding_right_and_below:
  "getOverallBbox tail_right_bubble
     = \<lparr>bbox_x = -10, bbox_y = -10, bbox_width = 270, bbox_height = 110\<rparr>
   \<and> bbox_x (getOverallBbox tail_right_bubble) + bbox_width (getOverallBbox tail_right_bubble)
       = 260
   \<and> bbox_y (getOverallBbox tail_right_bubble) + bbox_height (getOverallBbox tail_right_bubble)
       = 100"
  by (simp add: getOverallBbox_def bbox_extent_def tail_right_bubble_def bubble_of_def)

text \<open>
  C8.  The example of the spec.  The cut of the bottom edge is between x = 80 and x = 120
  as the claim says; the lower edge of the box is at y + height = 160, not at 170 or
  beyond.
\<close>

theorem example_bubble_cut_and_bbox:
  "corner_radius example_bubble = 50
   \<and> leftBaseX example_bubble example_tail = 80
   \<and> rightBaseX example_bubble example_tail = 120
   \<and> bodyPath (generateBubblePaths ns example_bubble)
       = ''M '' @ ns 50 @ '',0 L '' @ ns 150 @ '',0 A '' @ ns 50 @ '','' @ ns 50 @ '' 0 0 1 ''
         @ ns 200 @ '','' @ ns 50 @ '' L '' @ ns 200 @ '','' @ ns 50 @ '' A '' @ ns 50 @ '',''
         @ ns 50 @ '' 0 0 1 '' @ ns 150 @ '','' @ ns 100 @ '' L '' @ ns 120 @ '','' @ ns 100
         @ '' L '' @ ns 120 @ '','' @ ns 100
         @ '' Q '' @ ns 120 @ '' '' @ ns (-40) @ '' 0.25,'' @ ns 130 @ '' '' @ ns 80 @ '',''
         @ ns 160
         @ '' Q '' @ ns 80 @ '' '' @ ns 0 @ '' 0.25,'' @ ns 130 @ '' '' @ ns 80 @ '','' @ ns 100
         @ '' L '' @ ns 50 @ '','' @ ns 100 @ '' A '' @ ns 50 @ '','' @ ns 50 @ '' 0 0 1 0,''
         @ ns 50 @ '' L 0,'' @ ns 50 @ '' A '' @ ns 50 @ '','' @ ns 50 @ '' 0 0 1 '' @ ns 50
         @ '',0 Z''
   \<and> getOverallBbox example_bubble
       = \<lparr>bbox_x = -10, bbox_y = -10, bbox_width = 210, bbox_height = 170\<rparr>
   \<and> bbox_y (getOverallBbox example_bubble) + bbox_height (getOverallBbox example_bubble) = 160"
  by (simp add: generateBubblePaths_def bottom_tail_path_def createTailPath_def leftBaseX_def
      rightBaseX_def clampedBaseCX_def clampedBaseCY_def corner_radius_def example_bubble_def
      bubble_of_def example_tail_def is_speech_tail_def getOverallBbox_def bbox_extent_def Let_def)

section \<open>Properties: line wrapping\<close>

lemma parseRichText_a_br_b:
  "parseRichText ''a<br>b'' st =
     [\<lparr>seg_text = ''a'', seg_style = st, seg_width = 0, seg_height = 0\<rparr>,
      \<lparr>seg_text = newline, seg_style = st, seg_width = 0, seg_height = 0\<rparr>,
      \<lparr>seg_text = ''b'', seg_style = st, seg_width = 0, seg_height = 0\<rparr>]"
  by (simp add: parseRichText_def split_br_def match_br_def is_space_def newline_def)

text \<open>
  At every closing of a line the cursor advances by the default font size.  Without a
  newline marker among the segments, the wrapping keeps every word, in order.
\<close>

lemma close_line_advance: "currentY (close_line d st) = currentY st + d"
  by (simp add: close_line_def js_or_def empty_line_def Let_def)

lemma output_words_close_line:
  "output_words (all_lines (close_line d st)) = output_words (all_lines st)"
  by (simp add: output_words_def all_lines_def close_line_def empty_line_def Let_def)

lemma wrap_words_output:
  "output_words (all_lines (wrap_words m g w d seg ws st)) = output_words (all_lines st) @ ws"
proof (induction ws arbitrary: st)
  case Nil
  then show ?case by simp
next
  case (Cons word ws)
  show ?case
    by (simp add: Cons.IH Let_def)
       (simp add: output_words_def all_lines_def close_line_def empty_line_def Let_def)
qed

lemma wrap_segments_output:
  "\<forall>seg \<in> set segs. seg_text seg \<noteq> newline \<Longrightarrow>
   \<exists>st'. wrap_segments m g w d segs st = Completed st'
     \<and> output_words (all_lines st') = output_words (all_lines st) @ input_words segs"
proof (induction segs arbitrary: st)
  case Nil
  then show ?case by (simp add: input_words_def)
next
  case (Cons seg segs)
  then show ?case
    using Cons.IH[of "wrap_words m g w d seg (split_ws (seg_text seg)) st"]
    by (auto simp: wrap_words_output input_words_def)
qed

lemma wrap_lines_complete_without_markers:
  assumes "\<forall>seg \<in> set segs. seg_text seg \<noteq> newline"
  shows "\<exists>ls. wrap_lines m g w d segs = Some ls \<and> output_words ls = input_words segs"
proof -
  from wrap_segments_output[OF assms, of m g w d wrap_init] obtain st' where
    c: "wrap_segments m g w d segs wrap_init = Completed st'"
    and o: "output_words (all_lines st') = input_words segs"
    by (auto simp: all_lines_def wrap_init_def empty_line_def output_words_def)
  have "output_words (if segments (currentLine st') \<noteq> [] then lines st' @ [currentLine st'] else lines st')
        = output_words (all_lines st')"
    by (simp add: output_words_def all_lines_def)
  with c o show ?thesis by (simp add: wrap_lines_def)
qed

text \<open>With a newline marker among the segments, no line reaches the drawing part.\<close>

lemma wrap_segments_returns_at_marker:
  "\<exists>seg \<in> set segs. seg_text seg = newline \<Longrightarrow>
   \<exists>st'. wrap_segments m g w d segs st = Returned st'"
  by (induction segs arbitrary: st) auto

lemma wrap_lines_None_with_marker:
  "\<exists>seg \<in> set segs. seg_text seg = newline \<Longrightarrow> wrap_lines m g w d segs = None"
  using wrap_segments_returns_at_marker [of segs m g w d wrap_init]
  by (auto simp: wrap_lines_def)

text \<open>
  C3.  The claim: the words of the lines are the words of the segments, in order, also
  when a newline marker is among the segments.  The code at the text \<open>a<br>b\<close>, whose
  words are \<open>a\<close> and \<open>b\<close>: the loop returns from \<open>drawRichText\<close> at the marker, no line
  reaches the drawing part, and the lines collected until then hold \<open>a\<close> only.
\<close>

theorem newline_marker_aborts_wrapping:
  "input_words (parseRichText ''a<br>b'' style10) = [''a'', ''b'']
   \<and> drawRichText_lines ns ctx ''a<br>b'' w style10 fontMap getMaxWidthAtY = None
   \<and> (case wrap_segments m getMaxWidthAtY w 10 (parseRichText ''a<br>b'' style10) wrap_init of
         Returned st \<Rightarrow> output_words (lines st) = [''a''] \<and> segments (currentLine st) = []
       | Completed st \<Rightarrow> False)"
  by (simp add: parseRichText_a_br_b input_words_def output_words_def drawRichText_lines_def
      wrap_lines_def wrap_init_def close_line_def empty_line_def split_ws_def is_space_def
      newline_def Let_def split: prod.split)












section \<open>Properties: the safe text zone and the fits flag\<close>

text \<open>
  C6.  The claim: the fit target of a speech bubble is about 83% by 83% of the bubble.
  At a speech bubble of 1000 by 1000 the target is 980 by 980 at (10, 10), the zone a
  descriptive bubble of that size gets; 83% would be 830.
\<close>

theorem speech_zone_is_not_83_percent:
  "getTextBounds big_speech_bubble
     = \<lparr>tb_width = 980, tb_height = 980, tb_x = 10, tb_y = 10\<rparr>
   \<and> width big_speech_bubble * widthFactor (SAFE_TEXT_ZONES (btype big_speech_bubble)) = 830
   \<and> height big_speech_bubble * heightFactor (SAFE_TEXT_ZONES (btype big_speech_bubble)) = 830
   \<and> getTextBounds big_speech_bubble = getTextBounds (big_speech_bubble\<lparr>btype := Descriptive\<rparr>)"
  by (simp add: getTextBounds_def big_speech_bubble_def bubble_of_def)

text \<open>
  C6, as amended.  For every speech bubble (down, up and their minimal variants) the fit
  target is the bubble less a padding of 10 on each side, the zone of a descriptive or
  text-only bubble of the same size; the factors of \<open>SAFE_TEXT_ZONES\<close> are used for shout
  and thought bubbles only.
\<close>

theorem speech_zone_is_fixed_padding:
  "btype bubble = SpeechDown \<or> btype bubble = SpeechUp \<or> btype bubble = SpeechDownMinimal
     \<or> btype bubble = SpeechUpMinimal \<Longrightarrow>
   getTextBounds bubble
     = \<lparr>tb_width = width bubble - 20, tb_height = height bubble - 20, tb_x = 10, tb_y = 10\<rparr>
   \<and> getTextBounds bubble = getTextBounds (bubble\<lparr>btype := Descriptive\<rparr>)
   \<and> getTextBounds bubble = getTextBounds (bubble\<lparr>btype := TextOnly\<rparr>)"
  by (auto simp: getTextBounds_def)

theorem speech_zone_is_fixed_padding_witness:
  "btype example_bubble = SpeechDown
   \<and> getTextBounds example_bubble
       = \<lparr>tb_width = 180, tb_height = 80, tb_x = 10, tb_y = 10\<rparr>
   \<and> getTextBounds example_bubble = getTextBounds (example_bubble\<lparr>btype := Descriptive\<rparr>)
   \<and> getTextBounds example_bubble = getTextBounds (example_bubble\<lparr>btype := TextOnly\<rparr>)"
  using speech_zone_is_fixed_padding [of example_bubble]
  by (simp add: example_bubble_def bubble_of_def getTextBounds_def)

text \<open>
  C4.  The claim: \<open>fits\<close> is true exactly when the block measured at the returned font
  size fits the safe zone in width and in height.  The code at one word of 24 characters
  in a bubble of 100 by 100 (safe zone 80 by 80), each character half the font size
  wide: the search ends at the minimum size 8, the block is 96 wide and 11.2 high, and
  \<open>fits\<close> is true.
\<close>

theorem fits_flag_ignores_width:
  "calculateOptimalFontSize (Some mono_oracle) long_word long_word_bubble ''Arial'' 8 40
     = \<lparr>fit_fontSize = 8, textWidth = Num 96, textHeight = 11.2, fits = True,
        scaleFactor = 8 / 12\<rparr>
   \<and> tb_width (getTextBounds long_word_bubble) = 80
   \<and> \<not> fits_at (Some mono_oracle) long_word ''Arial'' (getTextBounds long_word_bubble) 8"
  by (simp add: calculateOptimalFontSize_def fit_loop.simps fits_at_def long_word_bubble_def
      bubble_of_def getTextBounds_def measureText_def measure_lines_def split_ws_def
      is_space_def long_word_def mono_oracle_def Let_def)

section \<open>Properties: the font size search\<close>

subsection \<open>A wider box never needs more lines\<close>

lemma measure_lines_final: "measure_lines m W txt = final_lines (measure_words m W (split_ws (strip_tags txt)) ([], []))"
  by (simp add: measure_lines_def final_lines_def)

lemma ahead_step:
  assumes mono: "monotone_measure m" and W: "W1 \<le> W2" and a: "ahead (l2, c2) (l1, c1)"
  shows "ahead (measure_words m W2 [word] (l2, c2)) (measure_words m W1 [word] (l1, c1))"
proof -
  let ?t1 = "if c1 \<noteq> [] then c1 @ '' '' @ word else word"
  let ?t2 = "if c2 \<noteq> [] then c2 @ '' '' @ word else word"
  have sw1: "suffix word ?t1" by (auto simp: suffix_def)
  show ?thesis
  proof (cases "length l2 < length l1")
    case True
    then show ?thesis using sw1 by (auto simp: ahead_def Let_def suffix_def)
  next
    case False
    with a have eq: "length l2 = length l1" and suf: "suffix c2 c1" by (auto simp: ahead_def)
    have c: "c2 \<noteq> [] \<Longrightarrow> c1 \<noteq> []" using suf by (auto simp: suffix_def)
    have st: "suffix ?t2 ?t1" using suf by (auto simp: suffix_def)
    then have "m ?t2 \<le> m ?t1" using mono by (simp add: monotone_measure_def)
    then have nb: "\<not> m ?t1 > W1 \<Longrightarrow> \<not> m ?t2 > W2" using W by linarith
    show ?thesis
    proof (cases "m ?t1 > W1")
      case b1: True
      show ?thesis
      proof (cases "m ?t2 > W2")
        case True
        with b1 eq c show ?thesis by (auto simp: ahead_def Let_def)
      next
        case False
        with b1 eq c suf show ?thesis by (auto simp: ahead_def Let_def suffix_def)
      qed
    next
      case False
      with nb have "\<not> m ?t2 > W2" by simp
      with False eq st show ?thesis by (auto simp: ahead_def Let_def)
    qed
  qed
qed

lemma measure_words_append1: "measure_words m W (word # ws) st = measure_words m W ws (measure_words m W [word] st)"
  by (cases st) (simp add: Let_def)

lemma ahead_run:
  assumes mono: "monotone_measure m" and W: "W1 \<le> W2"
  shows "ahead st2 st1 \<Longrightarrow> ahead (measure_words m W2 ws st2) (measure_words m W1 ws st1)"
proof (induction ws arbitrary: st1 st2)
  case Nil
  then show ?case by simp
next
  case (Cons word ws)
  obtain l1 c1 l2 c2 where s: "st1 = (l1, c1)" "st2 = (l2, c2)" by (cases st1, cases st2) auto
  have "ahead (measure_words m W2 [word] st2) (measure_words m W1 [word] st1)"
    using ahead_step[OF mono W] Cons.prems s by simp
  from Cons.IH[OF this] show ?case
    by (metis measure_words_append1)
qed

lemma ahead_final: "ahead st2 st1 \<Longrightarrow> length (final_lines st2) \<le> length (final_lines st1)"
  by (cases st1, cases st2) (auto simp: ahead_def final_lines_def suffix_def)

lemma lines_count_mono:
  assumes "monotone_measure m" "W1 \<le> W2"
  shows "length (measure_lines m W2 txt) \<le> length (measure_lines m W1 txt)"
  unfolding measure_lines_final
  by (rule ahead_final, rule ahead_run[OF assms]) (simp add: ahead_def)


text \<open>Every line, pushed or current, is a piece of a line of any later state.\<close>

lemma measure_words_keeps:
  "line0 \<in> set (fst st @ [snd st]) \<Longrightarrow>
   \<exists>line \<in> set (fst (measure_words m W ws st) @ [snd (measure_words m W ws st)]). sublist line0 line"
proof (induction ws arbitrary: st line0)
  case Nil
  then show ?case by auto
next
  case (Cons word ws)
  obtain ls cur where s: "st = (ls, cur)" by (cases st)
  let ?st1 = "measure_words m W [word] st"
  have "\<exists>line1 \<in> set (fst ?st1 @ [snd ?st1]). sublist line0 line1"
  proof (cases "line0 = cur")
    case True
    have "sublist cur word \<or> cur \<noteq> []" by auto
    moreover have "sublist cur (cur @ '' '' @ word)" by (rule prefix_imp_sublist) simp
    ultimately show ?thesis using True s by (auto simp: Let_def)
  next
    case False
    with Cons.prems s have "line0 \<in> set ls" by auto
    then show ?thesis using s by (auto simp: Let_def)
  qed
  then obtain line1 where l1: "line1 \<in> set (fst ?st1 @ [snd ?st1])" and sl: "sublist line0 line1"
    by blast
  from Cons.IH[OF l1] obtain line where
    "line \<in> set (fst (measure_words m W ws ?st1) @ [snd (measure_words m W ws ?st1)])"
    "sublist line1 line" by blast
  with sl show ?case
    by (metis measure_words_append1 sublist_order.order_trans)
qed

lemma measure_words_covers:
  "word \<in> set ws \<Longrightarrow>
   \<exists>line \<in> set (fst (measure_words m W ws st) @ [snd (measure_words m W ws st)]). sublist word line"
proof (induction ws arbitrary: st)
  case Nil
  then show ?case by simp
next
  case (Cons w ws)
  obtain ls cur where s: "st = (ls, cur)" by (cases st)
  let ?st1 = "measure_words m W [w] st"
  show ?case
  proof (cases "word = w")
    case True
    have "sublist w (cur @ '' '' @ w)" by (rule suffix_imp_sublist) (simp add: suffix_def)
    then have "\<exists>line1 \<in> set (fst ?st1 @ [snd ?st1]). sublist word line1"
      using True s by (auto simp: Let_def)
    then obtain line1 where l1: "line1 \<in> set (fst ?st1 @ [snd ?st1])" and sl: "sublist word line1"
      by blast
    from measure_words_keeps[OF l1, of m W ws] sl show ?thesis
      by (metis measure_words_append1 sublist_order.order_trans)
  next
    case False
    with Cons.prems have "word \<in> set ws" by simp
    from Cons.IH[OF this, of ?st1] show ?thesis
      by (metis measure_words_append1)
  qed
qed

lemma final_lines_covers:
  assumes "word \<in> set ws" "word \<noteq> []"
  shows "\<exists>line \<in> set (final_lines (measure_words m W ws st)). sublist word line"
proof -
  from measure_words_covers[OF assms(1), of m W st] obtain line where
    l: "line \<in> set (fst (measure_words m W ws st) @ [snd (measure_words m W ws st)])"
    and sl: "sublist word line" by blast
  from sl assms(2) have "line \<noteq> []" by auto
  with l have "line \<in> set (final_lines (measure_words m W ws st))"
    by (cases "measure_words m W ws st") (auto simp: final_lines_def)
  with sl show ?thesis by blast
qed

text \<open>When no word is wider than the width, no line is.\<close>

lemma measure_words_narrow:
  assumes "\<forall>w \<in> set ws. w \<noteq> [] \<longrightarrow> m w \<le> W"
    and "\<forall>l \<in> set (final_lines st). m l \<le> W"
  shows "\<forall>l \<in> set (final_lines (measure_words m W ws st)). m l \<le> W"
  using assms
proof (induction ws arbitrary: st)
  case Nil
  then show ?case by simp
next
  case (Cons w ws)
  obtain ls cur where s: "st = (ls, cur)" by (cases st)
  have "\<forall>l \<in> set (final_lines (measure_words m W [w] st)). m l \<le> W"
    using Cons.prems s by (auto simp: final_lines_def Let_def split: if_splits)
  moreover have "\<forall>w \<in> set ws. w \<noteq> [] \<longrightarrow> m w \<le> W" using Cons.prems by simp
  ultimately have "\<forall>l \<in> set (final_lines (measure_words m W ws (measure_words m W [w] st))). m l \<le> W"
    using Cons.IH by blast
  then show ?case by (metis measure_words_append1)
qed

lemma le_ext_math_max: "le_ext (math_max xs) b = (\<forall>x \<in> set xs. x \<le> b)"
proof (cases xs)
  case Nil
  then show ?thesis by simp
next
  case (Cons a as)
  have "\<And>a. (fold max as a \<le> b) = (a \<le> b \<and> (\<forall>x \<in> set as. x \<le> b))"
    by (induction as) auto
  with Cons show ?thesis by auto
qed

lemma lines_width_mono:
  assumes mono: "monotone_measure m" and W: "W1 \<le> W2"
    and fit1: "le_ext (math_max (map m (measure_lines m W1 txt))) W1"
  shows "le_ext (math_max (map m (measure_lines m W2 txt))) W2"
proof -
  let ?ws = "split_ws (strip_tags txt)"
  have n1: "\<forall>l \<in> set (measure_lines m W1 txt). m l \<le> W1"
    using fit1 by (simp add: le_ext_math_max)
  have "\<forall>w \<in> set ?ws. w \<noteq> [] \<longrightarrow> m w \<le> W2"
  proof (intro ballI impI)
    fix w assume "w \<in> set ?ws" "w \<noteq> []"
    from final_lines_covers[OF this, of m W1 "([], [])"] obtain line where
      "line \<in> set (measure_lines m W1 txt)" "sublist w line"
      by (auto simp: measure_lines_final)
    then have "m w \<le> m line" "m line \<le> W1" using mono n1 by (auto simp: monotone_measure_def)
    with W show "m w \<le> W2" by linarith
  qed
  from measure_words_narrow[OF this, of "([], [])"]
  have "\<forall>l \<in> set (measure_lines m W2 txt). m l \<le> W2"
    by (simp add: measure_lines_final final_lines_def)
  then show ?thesis by (simp add: le_ext_math_max)
qed


subsection \<open>The search loop\<close>

lemma fit_loop_unfold:
  "fit_loop canvas txt family mn tg tb fs i =
     (if fs \<ge> mn \<and> i < 20 then
        (if fits_at canvas txt family tb fs
         then \<lparr>fit_fontSize = fs,
               textWidth = dim_width (measureText canvas txt family fs (tb_width tb)),
               textHeight = dim_height (measureText canvas txt family fs (tb_width tb)),
               fits = True, scaleFactor = fs / tg\<rparr>
         else fit_loop canvas txt family mn tg tb (max mn (fs - 1)) (i + 1))
      else
        \<lparr>fit_fontSize = mn,
         textWidth = dim_width (measureText canvas txt family mn (tb_width tb)),
         textHeight = dim_height (measureText canvas txt family mn (tb_width tb)),
         fits = (dim_height (measureText canvas txt family mn (tb_width tb)) \<le> tb_height tb),
         scaleFactor = mn / tg\<rparr>)"
  by (subst fit_loop.simps) (simp add: fits_at_def Let_def)

lemma fits_at_mono:
  assumes mc: "monotone_canvas canvas" and fs: "0 \<le> fs"
    and W: "tb_width tb1 \<le> tb_width tb2" and H: "tb_height tb1 \<le> tb_height tb2"
    and f1: "fits_at canvas txt family tb1 fs"
  shows "fits_at canvas txt family tb2 fs"
proof (cases canvas)
  case None
  with f1 W H show ?thesis by (simp add: fits_at_def measureText_def)
next
  case (Some orc)
  let ?m = "orc fs family"
  have mono: "monotone_measure ?m" using mc Some by (simp add: monotone_canvas_def)
  from f1 Some have h1: "real (length (measure_lines ?m (tb_width tb1) txt)) * (fs * 1.4) \<le> tb_height tb1"
    and w1: "le_ext (math_max (map ?m (measure_lines ?m (tb_width tb1) txt))) (tb_width tb1)"
    by (simp_all add: fits_at_def measureText_def Let_def)
  have "real (length (measure_lines ?m (tb_width tb2) txt)) \<le> real (length (measure_lines ?m (tb_width tb1) txt))"
    using lines_count_mono[OF mono W] by simp
  then have "real (length (measure_lines ?m (tb_width tb2) txt)) * (fs * 1.4)
      \<le> real (length (measure_lines ?m (tb_width tb1) txt)) * (fs * 1.4)"
    using fs by (intro mult_right_mono) simp_all
  with h1 H have h2: "real (length (measure_lines ?m (tb_width tb2) txt)) * (fs * 1.4) \<le> tb_height tb2"
    by linarith
  have w2: "le_ext (math_max (map ?m (measure_lines ?m (tb_width tb2) txt))) (tb_width tb2)"
    by (rule lines_width_mono[OF mono W w1])
  from h2 w2 Some show ?thesis by (simp add: fits_at_def measureText_def Let_def)
qed

lemma fit_loop_upper: "mn \<le> fs \<Longrightarrow> fit_fontSize (fit_loop canvas txt family mn tg tb fs i) \<le> fs"
proof (induction canvas "txt" family mn tg tb fs i rule: fit_loop.induct)
  case (1 canvas t family mn tg tb fs i)
  show ?case
  proof (cases "fs \<ge> mn \<and> i < 20 \<and> \<not> fits_at canvas t family tb fs")
    case True
    then have "fit_fontSize (fit_loop canvas t family mn tg tb (max mn (fs - 1)) (i + 1)) \<le> max mn (fs - 1)"
      using "1.IH"[OF _ refl] by (simp add: fits_at_def Let_def)
    with True "1.prems" show ?thesis by (subst fit_loop_unfold) simp
  next
    case False
    with "1.prems" show ?thesis by (subst fit_loop_unfold) auto
  qed
qed

lemma fit_loop_mono:
  assumes imp: "\<And>fs. mn \<le> fs \<Longrightarrow> fits_at canvas txt family tb1 fs \<Longrightarrow> fits_at canvas txt family tb2 fs"
  shows "fit_fontSize (fit_loop canvas txt family mn tg tb1 fs i)
         \<le> fit_fontSize (fit_loop canvas txt family mn tg' tb2 fs i)"
  using imp
proof (induction canvas "txt" family mn tg tb1 fs i rule: fit_loop.induct)
  case (1 canvas t family mn tg tb1 fs i)
  show ?case
  proof (cases "fs \<ge> mn \<and> i < 20")
    case go: True
    show ?thesis
    proof (cases "fits_at canvas t family tb1 fs")
      case True
      with go "1.prems" have "fits_at canvas t family tb2 fs" by simp
      with True go show ?thesis
        by (subst fit_loop_unfold, subst (2) fit_loop_unfold) simp
    next
      case f1: False
      show ?thesis
      proof (cases "fits_at canvas t family tb2 fs")
        case True
        have "fit_fontSize (fit_loop canvas t family mn tg tb1 (max mn (fs - 1)) (i + 1)) \<le> max mn (fs - 1)"
          by (rule fit_loop_upper) simp
        moreover have "max mn (fs - 1) \<le> fs" using go by simp
        ultimately have "fit_fontSize (fit_loop canvas t family mn tg tb1 (max mn (fs - 1)) (i + 1)) \<le> fs"
          by linarith
        with go f1 True show ?thesis
          by (subst fit_loop_unfold, subst (2) fit_loop_unfold) simp
      next
        case False
        have "fit_fontSize (fit_loop canvas t family mn tg tb1 (max mn (fs - 1)) (i + 1))
           \<le> fit_fontSize (fit_loop canvas t family mn tg' tb2 (max mn (fs - 1)) (i + 1))"
          using "1.IH"[OF _ refl] go f1 "1.prems" by (simp add: fits_at_def Let_def)
        with go f1 False show ?thesis
          by (subst fit_loop_unfold, subst (2) fit_loop_unfold) simp
      qed
    qed
  next
    case False
    then show ?thesis
      by (subst fit_loop_unfold, subst (2) fit_loop_unfold) auto
  qed
qed


lemma fit_loop_result:
  "fit_fontSize (fit_loop canvas txt family mn tg tb fs i) = mn
   \<or> (fits_at canvas txt family tb (fit_fontSize (fit_loop canvas txt family mn tg tb fs i))
      \<and> mn \<le> fit_fontSize (fit_loop canvas txt family mn tg tb fs i)
      \<and> fit_fontSize (fit_loop canvas txt family mn tg tb fs i) \<le> fs)"
proof (induction canvas "txt" family mn tg tb fs i rule: fit_loop.induct)
  case (1 canvas t family mn tg tb fs i)
  show ?case
  proof (cases "fs \<ge> mn \<and> i < 20")
    case go: True
    show ?thesis
    proof (cases "fits_at canvas t family tb fs")
      case True
      with go show ?thesis by (subst (1 2 3 4) fit_loop_unfold) simp
    next
      case False
      let ?r = "fit_fontSize (fit_loop canvas t family mn tg tb (max mn (fs - 1)) (i + 1))"
      have eq: "fit_fontSize (fit_loop canvas t family mn tg tb fs i) = ?r"
        using go False by (subst fit_loop_unfold) simp
      have "?r = mn \<or> (fits_at canvas t family tb ?r \<and> mn \<le> ?r \<and> ?r \<le> max mn (fs - 1))"
        using "1.IH"[OF _ refl] go False by (simp add: fits_at_def Let_def)
      moreover have "max mn (fs - 1) \<le> fs" using go by simp
      ultimately show ?thesis unfolding eq by auto
    qed
  next
    case False
    then show ?thesis by (subst fit_loop_unfold) auto
  qed
qed

lemma fit_loop_at_fit:
  "mn \<le> fs \<Longrightarrow> fits_at canvas txt family tb fs \<Longrightarrow>
   fit_fontSize (fit_loop canvas txt family mn tg tb fs 0) = fs"
  by (subst fit_loop_unfold) simp

lemma fit_loop_at_min: "fit_fontSize (fit_loop canvas txt family mn tg tb mn i) = mn"
proof (induction "20 - i" arbitrary: i)
  case 0
  then show ?case by (subst fit_loop_unfold) simp
next
  case (Suc k)
  then have "fit_fontSize (fit_loop canvas txt family mn tg tb mn (i + 1)) = mn" by simp
  then show ?case by (subst fit_loop_unfold) simp
qed

text \<open>
  What the result says of itself: the scale factor is the size returned over the target
  size; a block that fits at the size returned is flagged as fitting; a block flagged as
  fitting fits in height.
\<close>

lemma fit_loop_facts:
  "scaleFactor (fit_loop canvas txt family mn tg tb fs i)
     = fit_fontSize (fit_loop canvas txt family mn tg tb fs i) / tg
   \<and> (fits_at canvas txt family tb (fit_fontSize (fit_loop canvas txt family mn tg tb fs i))
        \<longrightarrow> fits (fit_loop canvas txt family mn tg tb fs i))
   \<and> (fits (fit_loop canvas txt family mn tg tb fs i)
        \<longrightarrow> dim_height (measureText canvas txt family
               (fit_fontSize (fit_loop canvas txt family mn tg tb fs i)) (tb_width tb))
             \<le> tb_height tb)"
proof (induction canvas "txt" family mn tg tb fs i rule: fit_loop.induct)
  case (1 canvas t family mn tg tb fs i)
  show ?case
  proof (cases "fs \<ge> mn \<and> i < 20 \<and> \<not> fits_at canvas t family tb fs")
    case True
    then have eq: "fit_loop canvas t family mn tg tb fs i
                 = fit_loop canvas t family mn tg tb (max mn (fs - 1)) (i + 1)"
      by (subst fit_loop_unfold) simp
    show ?thesis
      unfolding eq using "1.IH"[OF _ refl] True by (simp add: fits_at_def Let_def)
  next
    case False
    show ?thesis
    proof (cases "fs \<ge> mn \<and> i < 20")
      case True
      with False have f: "fits_at canvas t family tb fs" by simp
      with True have eq: "fit_loop canvas t family mn tg tb fs i
          = \<lparr>fit_fontSize = fs,
             textWidth = dim_width (measureText canvas t family fs (tb_width tb)),
             textHeight = dim_height (measureText canvas t family fs (tb_width tb)),
             fits = True, scaleFactor = fs / tg\<rparr>"
        by (subst fit_loop_unfold) simp
      show ?thesis unfolding eq using f by (simp add: fits_at_def Let_def)
    next
      case stop: False
      then have eq: "fit_loop canvas t family mn tg tb fs i
          = \<lparr>fit_fontSize = mn,
             textWidth = dim_width (measureText canvas t family mn (tb_width tb)),
             textHeight = dim_height (measureText canvas t family mn (tb_width tb)),
             fits = (dim_height (measureText canvas t family mn (tb_width tb)) \<le> tb_height tb),
             scaleFactor = mn / tg\<rparr>"
        by (subst fit_loop_unfold) auto
      show ?thesis unfolding eq by (simp add: fits_at_def Let_def)
    qed
  qed
qed

lemma getTextBounds_fontSize: "getTextBounds (bubble\<lparr>fontSize := s\<rparr>) = getTextBounds bubble"
  by (simp add: getTextBounds_def)

lemma autoFit_idem: "autoFitBubbleText canvas (autoFitBubbleText canvas bubble family) family
    = autoFitBubbleText canvas bubble family"
proof (cases "btype bubble = TextOnly \<or> btext bubble = [] \<or> btext bubble = ''Votre texte ici''")
  case True
  then show ?thesis by (simp add: autoFitBubbleText_def)
next
  case skip: False
  let ?tb = "getTextBounds bubble"
  let ?r = "fit_fontSize (fit_loop canvas (btext bubble) family 8 (fontSize bubble) ?tb
               (min (fontSize bubble) 40) 0)"
  show ?thesis
  proof (cases "?r = fontSize bubble")
    case True
    with skip show ?thesis by (simp add: autoFitBubbleText_def calculateOptimalFontSize_def Let_def)
  next
    case False
    then have b': "autoFitBubbleText canvas bubble family = bubble\<lparr>fontSize := ?r\<rparr>"
      using skip by (simp add: autoFitBubbleText_def calculateOptimalFontSize_def Let_def)
    have again: "fit_fontSize (fit_loop canvas (btext bubble) family 8 ?r ?tb (min ?r 40) 0) = ?r"
    proof -
      from fit_loop_result[of canvas "btext bubble" family 8 "fontSize bubble" ?tb "min (fontSize bubble) 40" 0]
      consider "?r = 8" | "fits_at canvas (btext bubble) family ?tb ?r" "8 \<le> ?r" "?r \<le> min (fontSize bubble) 40"
        by blast
      then show ?thesis
      proof cases
        case 1
        have "fit_fontSize (fit_loop canvas (btext bubble) family 8 8 ?tb 8 0) = 8"
          by (rule fit_loop_at_min)
        with 1 show ?thesis by simp
      next
        case 2
        then have "min ?r 40 = ?r" by simp
        with 2 fit_loop_at_fit[of 8 ?r canvas "btext bubble" family ?tb ?r] show ?thesis by simp
      qed
    qed
    show ?thesis unfolding b' using skip again
      by (simp add: autoFitBubbleText_def calculateOptimalFontSize_def Let_def getTextBounds_fontSize)
  qed
qed


subsection \<open>Monotonicity in the size of the bubble\<close>

lemma mono_oracle_monotone: "monotone_canvas (Some mono_oracle)"
proof -
  have "\<And>fs (s::string) t. sublist s t \<Longrightarrow>
          (if 0 < fs then fs else 10) / 2 * real (length s)
          \<le> (if 0 < fs then fs else 10) / 2 * real (length t)"
  proof -
    fix fs :: real and s t :: string
    assume "sublist s t"
    then have "length s \<le> length t" by (auto simp: sublist_def)
    then show "(if 0 < fs then fs else 10) / 2 * real (length s)
          \<le> (if 0 < fs then fs else 10) / 2 * real (length t)"
      by (intro mult_left_mono) auto
  qed
  then show ?thesis
    by (simp add: monotone_canvas_def monotone_measure_def mono_oracle_def)
qed

text \<open>
  C9.  For the same text, font family and size bounds, a bubble that is strictly larger
  in width and height and equal otherwise never gets a strictly smaller font size.  Font
  sizes are not negative, so neither is the minimum; the canvas is absent, or its
  measurement never finds a piece of a text wider than the text, which is what the
  wrapping of \<open>measureText\<close> relies on.
\<close>

theorem fit_monotone_in_bubble_size:
  assumes mc: "monotone_canvas canvas"
    and mn: "0 \<le> minFontSize"
    and w: "width b1 < width b2"
    and h: "height b1 < height b2"
    and same: "b2 = b1\<lparr>width := width b2, height := height b2\<rparr>"
  shows "fit_fontSize (calculateOptimalFontSize canvas txt b1 family minFontSize maxFontSize)
         \<le> fit_fontSize (calculateOptimalFontSize canvas txt b2 family minFontSize maxFontSize)"
proof -
  have ty: "btype b2 = btype b1" and fs: "fontSize b2 = fontSize b1"
    by (subst same, simp)+
  have W: "tb_width (getTextBounds b1) \<le> tb_width (getTextBounds b2)"
    and H: "tb_height (getTextBounds b1) \<le> tb_height (getTextBounds b2)"
    using w h ty by (auto simp: getTextBounds_def Let_def)
  have "\<And>s. minFontSize \<le> s \<Longrightarrow> fits_at canvas txt family (getTextBounds b1) s
          \<Longrightarrow> fits_at canvas txt family (getTextBounds b2) s"
    using fits_at_mono [OF mc _ W H] mn by force
  from fit_loop_mono [of minFontSize canvas "txt" family "getTextBounds b1" "getTextBounds b2", OF this]
  show ?thesis
    by (simp add: calculateOptimalFontSize_def fs)
qed

theorem fit_monotone_in_bubble_size_witness:
  "monotone_canvas (Some mono_oracle) \<and> (0::real) \<le> 8
   \<and> width hello_small < width hello_large \<and> height hello_small < height hello_large
   \<and> hello_large = hello_small\<lparr>width := width hello_large, height := height hello_large\<rparr>
   \<and> fit_fontSize (calculateOptimalFontSize (Some mono_oracle) ''hello world'' hello_small ''Arial'' 8 40)
       \<le> fit_fontSize (calculateOptimalFontSize (Some mono_oracle) ''hello world'' hello_large ''Arial'' 8 40)
   \<and> fit_fontSize (calculateOptimalFontSize (Some mono_oracle) ''hello world'' hello_small ''Arial'' 8 40)
       = 14
   \<and> fit_fontSize (calculateOptimalFontSize (Some mono_oracle) ''hello world'' hello_large ''Arial'' 8 40)
       = 30"
proof -
  have a: "monotone_canvas (Some mono_oracle)" by (rule mono_oracle_monotone)
  have b: "(0::real) \<le> 8" by simp
  have c: "width hello_small < width hello_large"
    and d: "height hello_small < height hello_large"
    and e: "hello_large = hello_small\<lparr>width := width hello_large, height := height hello_large\<rparr>"
    by (simp_all add: hello_small_def hello_large_def bubble_of_def)
  have s: "fit_fontSize (calculateOptimalFontSize (Some mono_oracle) ''hello world'' hello_small ''Arial'' 8 40) = 14"
    by (simp add: calculateOptimalFontSize_def fit_loop.simps hello_small_def bubble_of_def
        getTextBounds_def measureText_def measure_lines_def split_ws_def is_space_def
        mono_oracle_def Let_def)
  have l: "fit_fontSize (calculateOptimalFontSize (Some mono_oracle) ''hello world'' hello_large ''Arial'' 8 40) = 30"
    by (simp add: calculateOptimalFontSize_def fit_loop.simps hello_large_def bubble_of_def
        getTextBounds_def measureText_def measure_lines_def split_ws_def is_space_def
        mono_oracle_def Let_def)
  from fit_monotone_in_bubble_size [OF a b c d e, of "''hello world''" "''Arial''" 40] a b c d e s l
  show ?thesis by simp
qed

subsection \<open>Idempotence\<close>

lemma autoFitBubbleText_ref_eq:
  "autoFitBubbleText_ref canvas st ref family =
     (if autoFitBubbleText canvas (st ! ref) family = st ! ref then (ref, st)
      else (length st, st @ [autoFitBubbleText canvas (st ! ref) family]))"
proof -
  have "\<And>(b::Bubble) r. r \<noteq> fontSize b \<Longrightarrow> b\<lparr>fontSize := r\<rparr> \<noteq> b"
  proof
    fix b :: Bubble and r
    assume "r \<noteq> fontSize b" "b\<lparr>fontSize := r\<rparr> = b"
    then have "fontSize (b\<lparr>fontSize := r\<rparr>) = fontSize b" by simp
    with \<open>r \<noteq> fontSize b\<close> show False by simp
  qed
  then show ?thesis
    by (simp add: autoFitBubbleText_ref_def autoFitBubbleText_def Let_def)
qed

text \<open>
  C5.  Applying \<open>autoFitBubbleText\<close> to its own result gives that result again.  On a
  store of objects: the objects that were in the store are what they were, the input
  among them; the object returned holds the value of \<open>autoFitBubbleText\<close>; when that
  differs from the input it is a new object; and a second call on the returned object
  returns it again and leaves the store alone.
\<close>

theorem autoFitBubbleText_idempotent_no_mutation:
  assumes "ref < length st"
  shows "autoFitBubbleText canvas (autoFitBubbleText canvas (st ! ref) family) family
           = autoFitBubbleText canvas (st ! ref) family
   \<and> (case autoFitBubbleText_ref canvas st ref family of
        (ref', st') \<Rightarrow>
          take (length st) st' = st \<and> st' ! ref = st ! ref
          \<and> ref' < length st'
          \<and> st' ! ref' = autoFitBubbleText canvas (st ! ref) family
          \<and> (st' ! ref' = st ! ref \<or> ref' = length st)
          \<and> autoFitBubbleText_ref canvas st' ref' family = (ref', st'))"
proof -
  let ?b = "st ! ref"
  let ?r = "autoFitBubbleText canvas ?b family"
  have idem: "autoFitBubbleText canvas ?r family = ?r" by (rule autoFit_idem)
  show ?thesis
  proof (cases "?r = ?b")
    case True
    then have "autoFitBubbleText_ref canvas st ref family = (ref, st)"
      by (simp add: autoFitBubbleText_ref_eq)
    with True assms idem show ?thesis by simp
  next
    case False
    then have eq: "autoFitBubbleText_ref canvas st ref family = (length st, st @ [?r])"
      by (simp add: autoFitBubbleText_ref_eq)
    have "autoFitBubbleText_ref canvas (st @ [?r]) (length st) family = (length st, st @ [?r])"
      by (subst autoFitBubbleText_ref_eq) (simp add: idem)
    with eq assms idem show ?thesis by (simp add: nth_append)
  qed
qed


theorem autoFitBubbleText_idempotent_no_mutation_witness:
  "0 < length [hello_small]
   \<and> autoFitBubbleText (Some mono_oracle) hello_small ''Arial'' = hello_small\<lparr>fontSize := 14\<rparr>
   \<and> autoFitBubbleText (Some mono_oracle)
         (autoFitBubbleText (Some mono_oracle) hello_small ''Arial'') ''Arial''
       = autoFitBubbleText (Some mono_oracle) hello_small ''Arial''
   \<and> autoFitBubbleText_ref (Some mono_oracle) [hello_small] 0 ''Arial''
       = (1, [hello_small, hello_small\<lparr>fontSize := 14\<rparr>])
   \<and> autoFitBubbleText_ref (Some mono_oracle) [hello_small, hello_small\<lparr>fontSize := 14\<rparr>] 1
         ''Arial''
       = (1, [hello_small, hello_small\<lparr>fontSize := 14\<rparr>])"
proof -
  have len: "0 < length [hello_small]" by simp
  have ev: "autoFitBubbleText (Some mono_oracle) hello_small ''Arial''
              = hello_small\<lparr>fontSize := 14\<rparr>"
    by (simp add: autoFitBubbleText_def calculateOptimalFontSize_def fit_loop.simps
        hello_small_def bubble_of_def getTextBounds_def measureText_def measure_lines_def
        split_ws_def is_space_def mono_oracle_def Let_def)
  have ne: "hello_small\<lparr>fontSize := 14\<rparr> \<noteq> hello_small"
    by (simp add: hello_small_def bubble_of_def)
  have ref: "autoFitBubbleText_ref (Some mono_oracle) [hello_small] 0 ''Arial''
               = (1, [hello_small, hello_small\<lparr>fontSize := 14\<rparr>])"
    by (simp add: autoFitBubbleText_ref_eq ev ne)
  from autoFitBubbleText_idempotent_no_mutation [OF len, of "Some mono_oracle" "''Arial''"]
  show ?thesis using ev ref by simp
qed

end
